theory Spec2Isabelle
  imports Main
begin

section \<open>Data model\<close>

text \<open>
  The schema catalog of \<^verbatim>\<open>get_schema_info\<close> is a Python dict from table name to a
  list of \<^verbatim>\<open>{"name": ..., "type": ...}\<close> dicts. A Python dict iterates in
  insertion order, so it is an association list with unique keys; assigning to a key
  that is already present keeps the key's position and replaces its value.
\<close>

record column =
  col_name :: string
  col_type :: string

type_synonym schema = "(string \<times> column list) list"

fun dict_set :: "('k \<times> 'v) list \<Rightarrow> 'k \<Rightarrow> 'v \<Rightarrow> ('k \<times> 'v) list" where
  "dict_set [] k v = [(k, v)]"
| "dict_set ((k', v') # d) k v =
     (if k' = k then (k, v) # d else (k', v') # dict_set d k v)"

text \<open>
  Modelled from the spec: the error taxonomy of section 7. No source file defines,
  raises or catches any of these five errors.
\<close>

datatype spec_error =
  EmptyQuestion | CatalogUnavailable | BackendUnavailable
  | MalformedGeneration | ExampleSchemaMismatch

text \<open>
  The exceptions of the model: the one \<^verbatim>\<open>agent.py\<close> raises itself, the ones the
  database library and \<^verbatim>\<open>os.listdir\<close> raise (carrying their message), the two
  Python raises on a row of the wrong shape, and the taxonomy of the spec.
\<close>

datatype exn =
  NotImplementedError
  | DuckDBError string
  | OSError string
  | ValueError
  | IndexError
  | Declared spec_error

fun declared :: "exn \<Rightarrow> bool" where
  "declared (Declared d) = True"
| "declared e = False"

section \<open>\<^verbatim>\<open>agent.py\<close>: the query writer\<close>

text \<open>
  \<^verbatim>\<open>QueryWriter.__init__\<close> stores the database path, the catalog read by
  \<^verbatim>\<open>get_schema_info\<close>, the backend client (its host) and the model name.
\<close>

record QueryWriter =
  qw_db_path :: string
  qw_schema :: schema
  qw_client :: string
  qw_model :: string

text \<open>
  What a call can touch outside its arguments: the store of the database engine,
  the number of connections open on each database path, the statements handed to
  \<^verbatim>\<open>con.execute\<close> (oldest first), and the requests sent to the generation backend
  through \<^verbatim>\<open>self.client.chat\<close> (oldest first).
\<close>

record 'db world =
  store :: 'db
  open_conns :: "string \<Rightarrow> nat"
  submitted :: "string list"
  backend_calls :: "string list"

text \<open>Python's \<^verbatim>\<open>sep.join(xs)\<close>.\<close>

fun py_join :: "string \<Rightarrow> string list \<Rightarrow> string" where
  "py_join sep [] = []"
| "py_join sep [x] = x"
| "py_join sep (x # y # ys) = x @ sep @ py_join sep (y # ys)"

text \<open>
  \<^verbatim>\<open>generate_query\<close>: every statement of the body is a comment except the final
  \<^verbatim>\<open>raise NotImplementedError(...)\<close>.
\<close>

definition generate_query ::
  "QueryWriter \<Rightarrow> string \<Rightarrow> 'db world \<Rightarrow> (exn + string) \<times> 'db world" where
  "generate_query self prompt w = (Inl NotImplementedError, w)"

text \<open>
  \<^verbatim>\<open>_format_schema\<close>: the loop over \<^verbatim>\<open>self.schema.items()\<close> appends one string to
  \<^verbatim>\<open>schema_parts\<close> per table; the result joins them with a newline.
\<close>

definition render_column :: "column \<Rightarrow> string" where
  "render_column col = col_name col @ '' ('' @ col_type col @ '')''"

fun format_loop :: "schema \<Rightarrow> string list \<Rightarrow> string list" where
  "format_loop [] schema_parts = schema_parts"
| "format_loop ((table_name, columns) # items) schema_parts =
     (let cols = py_join '', '' (map render_column columns)
      in format_loop items (schema_parts @ [''Table '' @ table_name @ '': '' @ cols]))"

definition format_schema :: "QueryWriter \<Rightarrow> string" where
  "format_schema self = py_join [CHR 0x0A] (format_loop (qw_schema self) [])"

text \<open>
  The formatter as the spec words it: for each table, in catalog order, a line naming
  the table followed by the comma-separated \<open>name (type)\<close> pairs of its columns, in
  their order.
\<close>

fun spec_pairs :: "column list \<Rightarrow> string" where
  "spec_pairs [] = []"
| "spec_pairs [c] = col_name c @ '' ('' @ col_type c @ '')''"
| "spec_pairs (c # d # cs) =
     col_name c @ '' ('' @ col_type c @ '')'' @ '', '' @ spec_pairs (d # cs)"

definition spec_line :: "string \<times> column list \<Rightarrow> string" where
  "spec_line t = ''Table '' @ fst t @ '': '' @ spec_pairs (snd t)"

fun spec_format :: "schema \<Rightarrow> string" where
  "spec_format [] = []"
| "spec_format [t] = spec_line t"
| "spec_format (t # u # ts) = spec_line t @ [CHR 0x0A] @ spec_format (u # ts)"

text \<open>What the spec calls a recognized query keyword at the start of the text.\<close>

definition begins_with_keyword :: "string \<Rightarrow> bool" where
  "begins_with_keyword s = (take 6 s = ''SELECT'' \<or> take 4 s = ''WITH'')"

text \<open>
  The outcome the spec asks of a call: a text that begins with a query keyword, or one
  of the errors it declares.
\<close>

fun query_or_declared :: "exn + string \<Rightarrow> bool" where
  "query_or_declared (Inr s) = begins_with_keyword s"
| "query_or_declared (Inl e) = declared e"

text \<open>The same, with the exception the stub raises admitted beside the declared ones.\<close>

fun query_or_raised :: "exn + string \<Rightarrow> bool" where
  "query_or_raised (Inr s) = begins_with_keyword s"
| "query_or_raised (Inl e) = (declared e \<or> e = NotImplementedError)"

text \<open>A writer over a one-table catalog and an untouched world, to run the model on.\<close>

definition writer0 :: QueryWriter where
  "writer0 =
     \<lparr>qw_db_path = ''bike_store.db'',
      qw_schema =
        [(''products'',
          [\<lparr>col_name = ''product_id'', col_type = ''INTEGER''\<rparr>,
           \<lparr>col_name = ''product_name'', col_type = ''VARCHAR''\<rparr>])],
      qw_client = ''http://localhost:11434'',
      qw_model = ''llama3.2''\<rparr>"

definition world0 :: "'db \<Rightarrow> 'db world" where
  "world0 s = \<lparr>store = s, open_conns = (\<lambda>p. 0), submitted = [], backend_calls = []\<rparr>"

section \<open>\<^verbatim>\<open>db/bike_store.py\<close>: loading and introspection\<close>

subsection \<open>The Python library functions the loader calls\<close>

text \<open>
  \<^verbatim>\<open>str.lower\<close> on the ASCII letters (file names are modelled as byte strings; every
  other byte is left as it is), \<^verbatim>\<open>str.endswith\<close>, \<^verbatim>\<open>str.rfind\<close> for one
  character, \<^verbatim>\<open>os.path.join\<close> and \<^verbatim>\<open>os.path.splitext\<close> of \<^verbatim>\<open>posixpath\<close>.
\<close>

definition lower_char :: "char \<Rightarrow> char" where
  "lower_char c =
     (case map_of (zip ''ABCDEFGHIJKLMNOPQRSTUVWXYZ'' ''abcdefghijklmnopqrstuvwxyz'') c of
        Some l \<Rightarrow> l
      | None \<Rightarrow> c)"

definition lower :: "string \<Rightarrow> string" where
  "lower s = map lower_char s"

definition endswith :: "string \<Rightarrow> string \<Rightarrow> bool" where
  "endswith s suf = (length suf \<le> length s \<and> drop (length s - length suf) s = suf)"

definition rfind :: "string \<Rightarrow> char \<Rightarrow> int" where
  "rfind p c =
     (if c \<in> set p
      then int (length p) - 1 - int (length (takeWhile (\<lambda>x. x \<noteq> c) (rev p)))
      else - 1)"

definition path_join :: "string \<Rightarrow> string \<Rightarrow> string" where
  "path_join a b =
     (if take 1 b = ''/'' then b
      else if a = [] \<or> endswith a ''/'' then a @ b
      else a @ ''/'' @ b)"

text \<open>
  \<^verbatim>\<open>splitext\<close> splits at the last dot after the last separator, unless every
  character between the separator and that dot is a dot too (a leading-dot name has
  no extension).
\<close>

definition splitext :: "string \<Rightarrow> string \<times> string" where
  "splitext p =
     (let sepIndex = rfind p CHR ''/'';
          dotIndex = rfind p CHR ''.''
      in if dotIndex > sepIndex
            \<and> list_ex (\<lambda>c. c \<noteq> CHR ''.'')
                  (take (nat (dotIndex - (sepIndex + 1))) (drop (nat (sepIndex + 1)) p))
         then (take (nat dotIndex) p, drop (nat dotIndex) p)
         else (p, []))"

subsection \<open>The database engine and the directory listing, as parameters\<close>

text \<open>
  DuckDB and the file system are not code of the repository. They are a parameter:
  \<open>eng_connect path read_only\<close> opens (or creates) the database file and fails with
  a message, \<open>eng_execute path sql\<close> runs one statement on the database at \<open>path\<close>
  and gives the rows of \<^verbatim>\<open>fetchall()\<close>, \<open>os_listdir\<close> lists a directory. A row is
  the tuple of its fields as text.
\<close>

type_synonym row = "string list"

record 'db env =
  eng_connect :: "string \<Rightarrow> bool \<Rightarrow> 'db \<Rightarrow> string + 'db"
  eng_execute :: "string \<Rightarrow> string \<Rightarrow> 'db \<Rightarrow> string + (row list \<times> 'db)"
  os_listdir :: "string \<Rightarrow> string + string list"

text \<open>
  \<^verbatim>\<open>duckdb.connect\<close>, \<^verbatim>\<open>con.execute(sql).fetchall()\<close> and \<^verbatim>\<open>con.close()\<close> on the
  world: a connection is its database path; opening counts it, closing discounts it.
\<close>

definition duckdb_connect ::
  "'db env \<Rightarrow> string \<Rightarrow> bool \<Rightarrow> 'db world \<Rightarrow> (exn + string) \<times> 'db world" where
  "duckdb_connect E database read_only w =
     (case eng_connect E database read_only (store w) of
        Inl msg \<Rightarrow> (Inl (DuckDBError msg), w)
      | Inr s \<Rightarrow> (Inr database, w\<lparr>store := s,
                  open_conns := (open_conns w)(database := Suc (open_conns w database))\<rparr>))"

definition con_execute ::
  "'db env \<Rightarrow> string \<Rightarrow> string \<Rightarrow> 'db world \<Rightarrow> (exn + row list) \<times> 'db world" where
  "con_execute E con sql w =
     (let w' = w\<lparr>submitted := submitted w @ [sql]\<rparr>
      in case eng_execute E con sql (store w) of
           Inl msg \<Rightarrow> (Inl (DuckDBError msg), w')
         | Inr (rows, s) \<Rightarrow> (Inr rows, w'\<lparr>store := s\<rparr>))"

definition con_close :: "string \<Rightarrow> 'db world \<Rightarrow> 'db world" where
  "con_close con w = w\<lparr>open_conns := (open_conns w)(con := open_conns w con - 1)\<rparr>"

subsection \<open>\<^verbatim>\<open>BikeStoreDb._create_db\<close>\<close>

record BikeStoreDb =
  db_path :: string
  download_path :: string

text \<open>The f-string handed to \<^verbatim>\<open>con.execute\<close>, with its line breaks and indentation.\<close>

definition create_sql :: "string \<Rightarrow> string \<Rightarrow> string" where
  "create_sql table_name fpath =
     [CHR 0x0A] @ replicate 20 CHR '' '' @ ''CREATE TABLE IF NOT EXISTS '' @ table_name @ '' AS''
     @ [CHR 0x0A] @ replicate 20 CHR '' '' @ ''SELECT * FROM read_csv_auto('' @ [CHR 0x27] @ fpath
     @ [CHR 0x27] @ '');''
     @ [CHR 0x0A] @ replicate 20 CHR '' ''"

definition is_csv :: "string \<Rightarrow> bool" where
  "is_csv fname = endswith (lower fname) ''.csv''"

text \<open>
  The loop over \<^verbatim>\<open>os.listdir(self.download_path)\<close>, carrying \<^verbatim>\<open>csv_count\<close>. An
  exception of \<^verbatim>\<open>con.execute\<close> leaves the loop and the function.
\<close>

fun create_loop ::
  "'db env \<Rightarrow> BikeStoreDb \<Rightarrow> string \<Rightarrow> string list \<Rightarrow> nat \<Rightarrow> 'db world
     \<Rightarrow> (exn + nat) \<times> 'db world" where
  "create_loop E self con [] csv_count w = (Inr csv_count, w)"
| "create_loop E self con (fname # rest) csv_count w =
     (let fpath = path_join (download_path self) fname
      in if is_csv fname
         then (let table_name = fst (splitext fname)
               in case con_execute E con (create_sql table_name fpath) w of
                    (Inl e, w') \<Rightarrow> (Inl e, w')
                  | (Inr rows, w') \<Rightarrow> create_loop E self con rest (csv_count + 1) w')
         else create_loop E self con rest csv_count w)"

text \<open>
  \<^verbatim>\<open>_create_db\<close> returns \<^verbatim>\<open>None\<close>; the model returns the \<^verbatim>\<open>csv_count\<close> it
  prints. \<^verbatim>\<open>con.close()\<close> is the statement after the loop.
\<close>

definition create_db :: "'db env \<Rightarrow> BikeStoreDb \<Rightarrow> 'db world \<Rightarrow> (exn + nat) \<times> 'db world" where
  "create_db E self w =
     (case duckdb_connect E (db_path self) False w of
        (Inl e, w1) \<Rightarrow> (Inl e, w1)
      | (Inr con, w1) \<Rightarrow>
          (case os_listdir E (download_path self) of
             Inl msg \<Rightarrow> (Inl (OSError msg), w1)
           | Inr files \<Rightarrow>
               (case create_loop E self con files 0 w1 of
                  (Inl e, w2) \<Rightarrow> (Inl e, w2)
                | (Inr csv_count, w2) \<Rightarrow> (Inr csv_count, con_close con w2))))"

subsection \<open>\<^verbatim>\<open>get_schema_info\<close>\<close>

text \<open>
  The list comprehension over the rows of \<^verbatim>\<open>DESCRIBE\<close>: \<^verbatim>\<open>col[0]\<close> and \<^verbatim>\<open>col[1]\<close>
  raise IndexError on a row with fewer than two fields.
\<close>

fun describe_columns :: "row list \<Rightarrow> exn + column list" where
  "describe_columns [] = Inr []"
| "describe_columns (col # columns) =
     (case col of
        n # t # others \<Rightarrow>
          (case describe_columns columns of
             Inl e \<Rightarrow> Inl e
           | Inr ds \<Rightarrow> Inr (\<lparr>col_name = n, col_type = t\<rparr> # ds))
      | _ \<Rightarrow> Inl IndexError)"

text \<open>
  The loop \<^verbatim>\<open>for (table_name,) in tables\<close>: unpacking a row that is not a 1-tuple
  raises ValueError.
\<close>

fun schema_loop ::
  "'db env \<Rightarrow> string \<Rightarrow> row list \<Rightarrow> schema \<Rightarrow> 'db world \<Rightarrow> (exn + schema) \<times> 'db world" where
  "schema_loop E con [] schema_info w = (Inr schema_info, w)"
| "schema_loop E con (r # tables) schema_info w =
     (case r of
        [table_name] \<Rightarrow>
          (case con_execute E con (''DESCRIBE '' @ table_name) w of
             (Inl e, w') \<Rightarrow> (Inl e, w')
           | (Inr columns, w') \<Rightarrow>
               (case describe_columns columns of
                  Inl e \<Rightarrow> (Inl e, w')
                | Inr ds \<Rightarrow> schema_loop E con tables (dict_set schema_info table_name ds) w'))
      | _ \<Rightarrow> (Inl ValueError, w))"

definition get_schema_info :: "'db env \<Rightarrow> string \<Rightarrow> 'db world \<Rightarrow> (exn + schema) \<times> 'db world" where
  "get_schema_info E path w =
     (case duckdb_connect E path True w of
        (Inl e, w1) \<Rightarrow> (Inl e, w1)
      | (Inr con, w1) \<Rightarrow>
          (case con_execute E con ''SHOW TABLES'' w1 of
             (Inl e, w2) \<Rightarrow> (Inl e, w2)
           | (Inr tables, w2) \<Rightarrow>
               (case schema_loop E con tables [] w2 of
                  (Inl e, w3) \<Rightarrow> (Inl e, w3)
                | (Inr schema_info, w3) \<Rightarrow> (Inr schema_info, con_close con w3))))"

section \<open>An in-memory engine\<close>

text \<open>
  A small engine to run the model on: a store maps each database path to its tables,
  a table is its columns (name and type), and \<open>csvs\<close> gives the columns that CSV
  detection finds in each file. It reads a statement as its blank-separated words and
  accepts the three statement forms that \<^verbatim>\<open>bike_store.py\<close> issues, with table names
  that need no quoting.
\<close>

type_synonym mem_table = "(string \<times> string) list"

type_synonym mem_store = "(string \<times> (string \<times> mem_table) list) list"

fun sql_words :: "string \<Rightarrow> string \<Rightarrow> string list" where
  "sql_words [] cur = (if cur = [] then [] else [cur])"
| "sql_words (c # cs) cur =
     (if c = CHR '' '' \<or> c = CHR 0x0A
      then (if cur = [] then sql_words cs [] else cur # sql_words cs [])
      else sql_words cs (cur @ [c]))"

definition ident_char :: "char \<Rightarrow> bool" where
  "ident_char c =
     (c \<in> set ''abcdefghijklmnopqrstuvwxyzABCDEFGHIJKLMNOPQRSTUVWXYZ0123456789_'')"

definition plain_identifier :: "string \<Rightarrow> bool" where
  "plain_identifier t =
     (case t of [] \<Rightarrow> False | c # cs \<Rightarrow> list_all ident_char t \<and> c \<notin> set ''0123456789'')"

definition mem_connect :: "string \<Rightarrow> bool \<Rightarrow> mem_store \<Rightarrow> string + mem_store" where
  "mem_connect path read_only s =
     (if map_of s path \<noteq> None then Inr s
      else if read_only then Inl ''IOException''
      else Inr (s @ [(path, [])]))"

definition csv_source :: "string \<Rightarrow> string option" where
  "csv_source src =
     (if take 15 src = ''read_csv_auto('' @ [CHR 0x27]
         \<and> drop (length src - 3) src = [CHR 0x27] @ '');''
      then Some (drop 15 (take (length src - 3) src))
      else None)"

definition mem_execute ::
  "(string \<times> mem_table) list \<Rightarrow> string \<Rightarrow> string \<Rightarrow> mem_store
     \<Rightarrow> string + (row list \<times> mem_store)" where
  "mem_execute csvs path sql s =
     (case map_of s path of
        None \<Rightarrow> Inl ''ConnectionException''
      | Some db \<Rightarrow>
          (let ws = sql_words sql []
           in if ws = [''SHOW'', ''TABLES'']
              then Inr (map (\<lambda>(t, cols). [t]) db, s)
              else if length ws = 2 \<and> hd ws = ''DESCRIBE''
              then (case map_of db (ws ! 1) of
                      None \<Rightarrow> Inl ''CatalogException''
                    | Some cols \<Rightarrow>
                        Inr (map (\<lambda>(n, ty). [n, ty, ''YES'', ''NULL'', ''NULL'', ''NULL'']) cols, s))
              else if length ws = 11
                      \<and> take 5 ws = [''CREATE'', ''TABLE'', ''IF'', ''NOT'', ''EXISTS'']
                      \<and> take 4 (drop 6 ws) = [''AS'', ''SELECT'', ''*'', ''FROM'']
                      \<and> plain_identifier (ws ! 5)
              then (if map_of db (ws ! 5) \<noteq> None then Inr ([], s)
                    else (case csv_source (ws ! 10) of
                            None \<Rightarrow> Inl ''ParserException''
                          | Some f \<Rightarrow>
                              (case map_of csvs f of
                                 None \<Rightarrow> Inl ''IOException''
                               | Some cols \<Rightarrow>
                                   Inr ([], dict_set s path (db @ [(ws ! 5, cols)])))))
              else Inl ''ParserException''))"

definition mem_env :: "(string \<times> mem_table) list \<Rightarrow> string list \<Rightarrow> mem_store env" where
  "mem_env csvs files =
     \<lparr>eng_connect = mem_connect, eng_execute = mem_execute csvs,
      os_listdir = (\<lambda>d. Inr files)\<rparr>"

definition tables_at :: "string \<Rightarrow> mem_store \<Rightarrow> string \<Rightarrow> mem_table option" where
  "tables_at path s t = (case map_of s path of None \<Rightarrow> None | Some db \<Rightarrow> map_of db t)"

text \<open>
  A data directory, the columns detected in its CSV files, and three listings of it.
\<close>

definition shop :: BikeStoreDb where
  "shop = \<lparr>db_path = ''bike_store.db'', download_path = ''/data''\<rparr>"

definition shop_csvs :: "(string \<times> mem_table) list" where
  "shop_csvs =
     [(''/data/products.csv'', [(''product_id'', ''INTEGER''), (''product_name'', ''VARCHAR'')]),
      (''/data/Brands.CSV'', [(''brand_id'', ''BIGINT''), (''brand_name'', ''VARCHAR'')]),
      (''/data/.csv'', [(''x'', ''BIGINT'')])]"

definition shop_env :: "mem_store env" where
  "shop_env = mem_env shop_csvs [''products.csv'', ''README.md'', ''Brands.CSV'']"

definition dotfile_env :: "mem_store env" where
  "dotfile_env = mem_env shop_csvs [''.csv'']"

text \<open>What \<open>mem_execute\<close> answers to \<^verbatim>\<open>DESCRIBE\<close> for the tables of a database.\<close>

definition describe_rows :: "(string \<times> mem_table) list \<Rightarrow> string \<Rightarrow> row list" where
  "describe_rows db t =
     (case map_of db t of
        None \<Rightarrow> []
      | Some cols \<Rightarrow> map (\<lambda>(n, ty). [n, ty, ''YES'', ''NULL'', ''NULL'', ''NULL'']) cols)"

text \<open>The columns \<^verbatim>\<open>get_schema_info\<close> makes of well-shaped \<^verbatim>\<open>DESCRIBE\<close> rows.\<close>

definition row_columns :: "row list \<Rightarrow> column list" where
  "row_columns rows = map (\<lambda>r. \<lparr>col_name = r ! 0, col_type = r ! 1\<rparr>) rows"

text \<open>
  The statements the loop of \<^verbatim>\<open>_create_db\<close> hands to the engine for a listing, and
  the table name as the spec words it: the file name with the four characters of the
  extension stripped.
\<close>

definition load_statements :: "BikeStoreDb \<Rightarrow> string list \<Rightarrow> string list" where
  "load_statements self files =
     map (\<lambda>fname. create_sql (fst (splitext fname)) (path_join (download_path self) fname))
       (filter is_csv files)"

definition spec_table_name :: "string \<Rightarrow> string" where
  "spec_table_name fname = take (length fname - 4) fname"

text \<open>A step of the engine keeps the tables there are: each is afterwards what it was.\<close>

definition keeps :: "('db \<Rightarrow> string \<Rightarrow> 'tbl option) \<Rightarrow> 'db \<Rightarrow> 'db \<Rightarrow> bool" where
  "keeps tables s s' = (\<forall>t. tables s t \<noteq> None \<longrightarrow> tables s' t = tables s t)"

text \<open>
  A database that already holds a table \<open>products\<close> from elsewhere, and the data
  directory after its CSV file has changed.
\<close>

definition stale_store :: mem_store where
  "stale_store = [(''bike_store.db'', [(''products'', [(''old'', ''VARCHAR'')])])]"

definition changed_env :: "mem_store env" where
  "changed_env =
     mem_env [(''/data/products.csv'', [(''product_id'', ''VARCHAR'')])] [''products.csv'']"

section \<open>Lemmas on the formatter\<close>

lemma format_loop_map:
  "format_loop items acc =
     acc @ map (\<lambda>(t, cs). ''Table '' @ t @ '': '' @ py_join '', '' (map render_column cs)) items"
  by (induction items acc rule: format_loop.induct) simp_all

lemma spec_pairs_join: "spec_pairs cs = py_join '', '' (map render_column cs)"
  by (induction cs rule: spec_pairs.induct) (simp_all add: render_column_def)

lemma spec_format_join: "spec_format ts = py_join [CHR 0x0A] (map spec_line ts)"
  by (induction ts rule: spec_format.induct) simp_all

section \<open>The query writer\<close>

text \<open>
  C1, as the spec states it, fails: asked a non-empty question over a non-empty catalog,
  \<^verbatim>\<open>generate_query\<close> neither returns a text beginning with a query keyword nor
  raises one of the declared errors.
\<close>

theorem generate_query_undeclared_counterexample:
  "qw_schema writer0 \<noteq> []
   \<and> \<not> query_or_declared
         (fst (generate_query writer0 ''How many products are there?'' (world0 ())))"
  by (simp add: generate_query_def writer0_def)

text \<open>
  C1, amended: for every question and every catalog, \<^verbatim>\<open>generate_query\<close> returns a
  text beginning with a query keyword or raises a declared error or
  NotImplementedError; it never returns the empty string.
\<close>

theorem generate_query_raises_or_query:
  "query_or_raised (fst (generate_query self prompt w))
   \<and> fst (generate_query self prompt w) \<noteq> Inr []"
  by (simp add: generate_query_def)

theorem generate_query_raises_or_query_witness:
  "query_or_raised (fst (generate_query writer0 ''How many products are there?'' (world0 ())))
   \<and> fst (generate_query writer0 ''How many products are there?'' (world0 ())) \<noteq> Inr []"
  by (rule generate_query_raises_or_query)

text \<open>
  C2: \<^verbatim>\<open>generate_query\<close> is a stub. For every prompt it raises NotImplementedError
  and returns no value.
\<close>

theorem generate_query_stub:
  "fst (generate_query self prompt w) = Inl NotImplementedError
   \<and> (\<nexists>s. fst (generate_query self prompt w) = Inr s)"
  by (simp add: generate_query_def)

text \<open>
  C3, as the spec states it, fails: on the empty question the error is not
  EmptyQuestion.
\<close>

theorem generate_query_empty_counterexample:
  "fst (generate_query writer0 [] (world0 ())) \<noteq> Inl (Declared EmptyQuestion)"
  by (simp add: generate_query_def)

text \<open>
  C3, amended: on the empty question \<^verbatim>\<open>generate_query\<close> fails at once with
  NotImplementedError, as on every question, and the world is as before the call: no
  request has gone to the backend and no statement to the database.
\<close>

theorem generate_query_empty_fails_fast:
  "generate_query self [] w = (Inl NotImplementedError, w)
   \<and> backend_calls (snd (generate_query self [] w)) = backend_calls w"
  by (simp add: generate_query_def)

theorem generate_query_empty_fails_fast_witness:
  "generate_query writer0 [] (world0 ()) = (Inl NotImplementedError, world0 ())
   \<and> backend_calls (snd (generate_query writer0 [] (world0 ()))) = []"
  using generate_query_empty_fails_fast [of writer0 "world0 ()"] by (simp add: world0_def)

section \<open>The schema formatter\<close>

text \<open>
  C4: the formatter is deterministic. Its text depends on the catalog alone: two
  writers holding the same catalog, whatever their path, client and model, format it to
  the same text.
\<close>

theorem format_schema_deterministic:
  "qw_schema a = qw_schema b \<Longrightarrow> format_schema a = format_schema b"
  by (simp add: format_schema_def)

theorem format_schema_deterministic_witness:
  "qw_schema writer0 = qw_schema (writer0\<lparr>qw_db_path := ''other.db'', qw_model := ''m''\<rparr>)
   \<and> format_schema writer0
       = format_schema (writer0\<lparr>qw_db_path := ''other.db'', qw_model := ''m''\<rparr>)"
proof -
  have h: "qw_schema writer0 = qw_schema (writer0\<lparr>qw_db_path := ''other.db'', qw_model := ''m''\<rparr>)"
    by simp
  from h format_schema_deterministic [OF h] show ?thesis by simp
qed

text \<open>
  C5: the text of \<^verbatim>\<open>_format_schema\<close> is the spec's rendering of the catalog: one
  line per table in catalog order, naming the table and listing the \<open>name (type)\<close>
  pairs of its columns, comma-separated, in column order.
\<close>

theorem format_schema_renders_catalog:
  "format_schema self = spec_format (qw_schema self)"
proof -
  have "format_loop (qw_schema self) [] = map spec_line (qw_schema self)"
    by (simp add: format_loop_map spec_line_def spec_pairs_join case_prod_beta)
  then show ?thesis
    by (simp add: format_schema_def spec_format_join)
qed

section \<open>Schema introspection\<close>

lemma con_execute_open_conns:
  "open_conns (snd (con_execute E con sql w)) = open_conns w"
  by (simp add: con_execute_def Let_def split: sum.splits prod.splits)

lemma schema_loop_open_conns:
  "open_conns (snd (schema_loop E con rows acc w)) = open_conns w"
proof (induction rows arbitrary: acc w)
  case Nil
  show ?case by simp
next
  case (Cons r rows)
  show ?case
  proof (cases "\<exists>t. r = [t]")
    case False
    then show ?thesis by (cases r; cases "tl r") auto
  next
    case True
    then obtain t where r: "r = [t]" by blast
    obtain x w' where ex: "con_execute E con (''DESCRIBE '' @ t) w = (x, w')"
      by (cases "con_execute E con (''DESCRIBE '' @ t) w")
    have oc: "open_conns w' = open_conns w"
      using con_execute_open_conns [of E con "''DESCRIBE '' @ t" w] ex by simp
    show ?thesis
      using r ex oc Cons.IH by (simp split: sum.splits)
  qed
qed

text \<open>
  C6, as the spec states it, fails: when the database cannot be opened the error is
  the engine's own, not CatalogUnavailable.
\<close>

theorem get_schema_info_unopened_counterexample:
  "mem_connect ''bike_store.db'' True [] = Inl ''IOException''
   \<and> fst (get_schema_info (mem_env [] []) ''bike_store.db'' (world0 []))
       \<noteq> Inl (Declared CatalogUnavailable)"
  by code_simp

text \<open>
  C6, amended: on a database with zero tables \<^verbatim>\<open>get_schema_info\<close> returns the empty
  catalog and no error; when the database cannot be opened it fails with the
  exception of the database library, passed on unchanged, and the world is as before.
\<close>

theorem get_schema_info_degenerate:
  "(eng_connect E path True (store w) = Inr s \<longrightarrow>
      eng_execute E path ''SHOW TABLES'' s = Inr ([], s') \<longrightarrow>
        fst (get_schema_info E path w) = Inr [])
   \<and> (eng_connect E path True (store w) = Inl msg \<longrightarrow>
        get_schema_info E path w = (Inl (DuckDBError msg), w))"
  by (simp add: get_schema_info_def duckdb_connect_def con_execute_def Let_def)

theorem get_schema_info_degenerate_witness:
  "fst (get_schema_info (mem_env [] []) ''bike_store.db'' (world0 [(''bike_store.db'', [])]))
     = Inr []
   \<and> get_schema_info (mem_env [] []) ''bike_store.db'' (world0 [])
       = (Inl (DuckDBError ''IOException''), world0 [])"
proof -
  have c1: "eng_connect (mem_env [] []) ''bike_store.db'' True
              (store (world0 [(''bike_store.db'', [])])) = Inr [(''bike_store.db'', [])]"
    by code_simp
  have s1: "eng_execute (mem_env [] []) ''bike_store.db'' ''SHOW TABLES''
              [(''bike_store.db'', [])] = Inr ([], [(''bike_store.db'', [])])"
    by code_simp
  have c2: "eng_connect (mem_env [] []) ''bike_store.db'' True (store (world0 []))
              = Inl ''IOException''"
    by code_simp
  from get_schema_info_degenerate
         [of "mem_env [] []" "''bike_store.db''" "world0 [(''bike_store.db'', [])]"
             "[(''bike_store.db'', [])]" "[(''bike_store.db'', [])]"] c1 s1
  have a: "fst (get_schema_info (mem_env [] []) ''bike_store.db''
                  (world0 [(''bike_store.db'', [])])) = Inr []"
    by blast
  from get_schema_info_degenerate
         [of "mem_env [] []" "''bike_store.db''" "world0 []" _ _ "''IOException''"] c2
  have b: "get_schema_info (mem_env [] []) ''bike_store.db'' (world0 [])
             = (Inl (DuckDBError ''IOException''), world0 [])"
    by blast
  from a b show ?thesis by blast
qed

text \<open>
  C7, as the spec states it, fails: a table whose name needs quoting is listed by
  \<^verbatim>\<open>SHOW TABLES\<close>, the \<^verbatim>\<open>DESCRIBE\<close> for it raises, and the call ends with its
  connection still open.
\<close>

theorem get_schema_info_leak_counterexample:
  "fst (get_schema_info shop_env ''bike_store.db''
          (world0 [(''bike_store.db'', [(''order items'', [(''item_id'', ''BIGINT'')])])]))
     = Inl (DuckDBError ''ParserException'')
   \<and> open_conns (snd (get_schema_info shop_env ''bike_store.db''
          (world0 [(''bike_store.db'', [(''order items'', [(''item_id'', ''BIGINT'')])])])))
        ''bike_store.db'' = 1
   \<and> open_conns (world0 [(''bike_store.db'', [(''order items'', [(''item_id'', ''BIGINT'')])])])
        ''bike_store.db'' = 0"
  by code_simp

text \<open>
  C7, amended: \<^verbatim>\<open>get_schema_info\<close> closes its connection right after the listing
  calls when it returns the catalog, so that the open connections are then as before
  the call; when opening fails there is nothing to close; when a listing or describing
  call raises after the connection was opened, the exception leaves the function and
  the connection is not closed by it.
\<close>

theorem get_schema_info_release:
  "open_conns (snd (get_schema_info E path w)) =
     (case fst (get_schema_info E path w) of
        Inr sch \<Rightarrow> open_conns w
      | Inl e \<Rightarrow>
          (case eng_connect E path True (store w) of
             Inl msg \<Rightarrow> open_conns w
           | Inr s \<Rightarrow> (open_conns w)(path := Suc (open_conns w path))))"
proof (cases "eng_connect E path True (store w)")
  case (Inl msg)
  then show ?thesis by (simp add: get_schema_info_def duckdb_connect_def)
next
  case (Inr s)
  define w1 where
    "w1 = w\<lparr>store := s, open_conns := (open_conns w)(path := Suc (open_conns w path))\<rparr>"
  have c: "duckdb_connect E path True w = (Inr path, w1)"
    using Inr by (simp add: duckdb_connect_def w1_def)
  obtain x w2 where ex: "con_execute E path ''SHOW TABLES'' w1 = (x, w2)"
    by (cases "con_execute E path ''SHOW TABLES'' w1")
  have o2: "open_conns w2 = open_conns w1"
    using con_execute_open_conns [of E path "''SHOW TABLES''" w1] ex by simp
  show ?thesis
  proof (cases x)
    case (Inl e)
    then show ?thesis
      using c ex o2 \<open>eng_connect E path True (store w) = Inr s\<close>
      by (simp add: get_schema_info_def w1_def)
  next
    case (Inr tables)
    obtain y w3 where lp: "schema_loop E path tables [] w2 = (y, w3)"
      by (cases "schema_loop E path tables [] w2")
    have o3: "open_conns w3 = open_conns w2"
      using schema_loop_open_conns [of E path tables "[]" w2] lp by simp
    show ?thesis
      using c ex Inr lp o3 o2 \<open>eng_connect E path True (store w) = Inr s\<close>
      by (cases y) (simp_all add: get_schema_info_def w1_def con_close_def)
  qed
qed

theorem get_schema_info_release_witness:
  "open_conns (snd (get_schema_info shop_env ''bike_store.db''
       (world0 [(''bike_store.db'', [(''brands'', [(''brand_id'', ''BIGINT'')])])])))
     ''bike_store.db'' = 0"
proof -
  have r: "fst (get_schema_info shop_env ''bike_store.db''
                 (world0 [(''bike_store.db'', [(''brands'', [(''brand_id'', ''BIGINT'')])])]))
             = Inr [(''brands'', [\<lparr>col_name = ''brand_id'', col_type = ''BIGINT''\<rparr>])]"
    by code_simp
  from get_schema_info_release
         [of shop_env "''bike_store.db''"
             "world0 [(''bike_store.db'', [(''brands'', [(''brand_id'', ''BIGINT'')])])]"] r
  show ?thesis by (simp add: world0_def)
qed

lemma map_of_dict_set: "map_of (dict_set d k v) = (map_of d)(k \<mapsto> v)"
  by (induction d k v rule: dict_set.induct) auto

lemma describe_columns_ok:
  "\<forall>r\<in>set rows. 2 \<le> length r \<Longrightarrow> describe_columns rows = Inr (row_columns rows)"
proof (induction rows)
  case Nil
  show ?case by (simp add: row_columns_def)
next
  case (Cons r rows)
  from Cons.prems have "2 \<le> length r" by simp
  then obtain n t others where r: "r = n # t # others"
    by (cases r; cases "tl r") auto
  from Cons show ?case by (simp add: r row_columns_def)
qed

lemma schema_loop_reads:
  assumes "\<forall>t\<in>set ts. eng_execute E con (''DESCRIBE '' @ t) (store w) = Inr (rows t, store w)"
      and "\<forall>t\<in>set ts. \<forall>r\<in>set (rows t). 2 \<le> length r"
  shows "\<exists>sch w'. schema_loop E con (map (\<lambda>t. [t]) ts) acc w = (Inr sch, w')
           \<and> store w' = store w
           \<and> map_of sch = (\<lambda>n. if n \<in> set ts then Some (row_columns (rows n)) else map_of acc n)"
  using assms
proof (induction ts arbitrary: acc w)
  case Nil
  show ?case by simp
next
  case (Cons t ts)
  define w1 where "w1 = w\<lparr>submitted := submitted w @ [''DESCRIBE '' @ t]\<rparr>"
  have ex: "con_execute E con (''DESCRIBE '' @ t) w = (Inr (rows t), w1)"
    using Cons.prems(1) by (simp add: con_execute_def w1_def)
  have dc: "describe_columns (rows t) = Inr (row_columns (rows t))"
    using Cons.prems(2) by (simp add: describe_columns_ok)
  have st: "store w1 = store w" by (simp add: w1_def)
  from Cons.IH [of w1 "dict_set acc t (row_columns (rows t))"] Cons.prems st
  obtain sch w' where
    lp: "schema_loop E con (map (\<lambda>t. [t]) ts) (dict_set acc t (row_columns (rows t))) w1 = (Inr sch, w')"
    and s': "store w' = store w"
    and m: "map_of sch = (\<lambda>n. if n \<in> set ts then Some (row_columns (rows n))
                            else map_of (dict_set acc t (row_columns (rows t))) n)"
    by auto
  have "map_of sch = (\<lambda>n. if n \<in> set (t # ts) then Some (row_columns (rows n)) else map_of acc n)"
    by (rule ext) (simp add: m map_of_dict_set)
  with lp s' ex dc show ?case by simp
qed

lemma take2_pair: 
  assumes "take 2 r = [a, b]" shows "r ! 0 = a \<and> r ! 1 = b"
proof -
  from assms obtain x y others where "r = x # y # others"
    by (cases r; cases "tl r") auto
  with assms show ?thesis by simp
qed

lemma two_rows:
  assumes "map (take 2) rs = [[a, b], [c, d]]"
  shows "row_columns rs = [\<lparr>col_name = a, col_type = b\<rparr>, \<lparr>col_name = c, col_type = d\<rparr>]"
proof -
  from assms obtain r1 r2 where rs: "rs = [r1, r2]"
    by (cases rs; cases "tl rs"; cases "tl (tl rs)") auto
  with assms have t: "take 2 r1 = [a, b]" "take 2 r2 = [c, d]" by auto
  from take2_pair [OF t(1)] take2_pair [OF t(2)] show ?thesis
    by (simp add: rs row_columns_def)
qed

text \<open>
  C9: introspection gives back what was loaded. On a database in which the engine
  lists a table \<open>products\<close> and describes it by the two columns
  \<open>product_id INTEGER\<close> and \<open>product_name VARCHAR\<close>, in that order,
  \<^verbatim>\<open>get_schema_info\<close> returns a catalog whose entry for \<open>products\<close> is exactly
  those two column descriptors, with those names and types, in that order, whatever
  other tables there are. The witness runs \<^verbatim>\<open>_create_db\<close> first and introspects
  the database it leaves.
\<close>

theorem introspection_roundtrip:
  assumes conn: "eng_connect E path True (store w) = Inr s"
      and sh: "eng_execute E path ''SHOW TABLES'' s = Inr (map (\<lambda>t. [t]) ts, s)"
      and listed: "''products'' \<in> set ts"
      and desc: "\<forall>t\<in>set ts. eng_execute E path (''DESCRIBE '' @ t) s = Inr (rows t, s)"
      and shape: "\<forall>t\<in>set ts. \<forall>r\<in>set (rows t). 2 \<le> length r"
      and prod: "map (take 2) (rows ''products'')
                   = [[''product_id'', ''INTEGER''], [''product_name'', ''VARCHAR'']]"
  shows "\<exists>sch. fst (get_schema_info E path w) = Inr sch
           \<and> map_of sch ''products''
               = Some [\<lparr>col_name = ''product_id'', col_type = ''INTEGER''\<rparr>,
                       \<lparr>col_name = ''product_name'', col_type = ''VARCHAR''\<rparr>]"
proof -
  define w1 where "w1 = w\<lparr>store := s, open_conns := (open_conns w)(path := Suc (open_conns w path))\<rparr>"
  define w2 where "w2 = w1\<lparr>submitted := submitted w1 @ [''SHOW TABLES'']\<rparr>"
  have c: "duckdb_connect E path True w = (Inr path, w1)"
    using conn by (simp add: duckdb_connect_def w1_def)
  have ex: "con_execute E path ''SHOW TABLES'' w1 = (Inr (map (\<lambda>t. [t]) ts), w2)"
    using sh by (simp add: con_execute_def w1_def w2_def)
  have st: "store w2 = s" by (simp add: w1_def w2_def)
  from schema_loop_reads [of ts E path w2 rows "[]"] desc shape st
  obtain sch w3 where
    lp: "schema_loop E path (map (\<lambda>t. [t]) ts) [] w2 = (Inr sch, w3)"
    and m: "map_of sch = (\<lambda>n. if n \<in> set ts then Some (row_columns (rows n)) else map_of [] n)"
    by auto
  have res: "fst (get_schema_info E path w) = Inr sch"
    using c ex lp by (simp add: get_schema_info_def)
  from m listed two_rows [OF prod] res show ?thesis by simp
qed

theorem introspection_roundtrip_witness:
  "\<exists>sch. fst (get_schema_info shop_env ''bike_store.db''
                 (snd (create_db shop_env shop (world0 [])))) = Inr sch
         \<and> map_of sch ''products''
             = Some [\<lparr>col_name = ''product_id'', col_type = ''INTEGER''\<rparr>,
                     \<lparr>col_name = ''product_name'', col_type = ''VARCHAR''\<rparr>]"
proof -
  let ?db = "[(''products'', [(''product_id'', ''INTEGER''), (''product_name'', ''VARCHAR'')]),
              (''Brands'', [(''brand_id'', ''BIGINT''), (''brand_name'', ''VARCHAR'')])]"
  let ?s = "[(''bike_store.db'', ?db)]"
  have ld: "store (snd (create_db shop_env shop (world0 []))) = ?s"
    by code_simp
  have conn: "eng_connect shop_env ''bike_store.db'' True
                (store (snd (create_db shop_env shop (world0 [])))) = Inr ?s"
    unfolding ld by code_simp
  have sh: "eng_execute shop_env ''bike_store.db'' ''SHOW TABLES'' ?s
              = Inr (map (\<lambda>t. [t]) [''products'', ''Brands''], ?s)"
    by code_simp
  have listed: "''products'' \<in> set [''products'', ''Brands'']" by simp
  have d1: "eng_execute shop_env ''bike_store.db'' (''DESCRIBE '' @ ''products'') ?s
              = Inr (describe_rows ?db ''products'', ?s)"
    by code_simp
  have d2: "eng_execute shop_env ''bike_store.db'' (''DESCRIBE '' @ ''Brands'') ?s
              = Inr (describe_rows ?db ''Brands'', ?s)"
    by code_simp
  have desc: "\<forall>t\<in>set [''products'', ''Brands''].
                eng_execute shop_env ''bike_store.db'' (''DESCRIBE '' @ t) ?s
                  = Inr (describe_rows ?db t, ?s)"
    using d1 d2 by simp
  have shape: "\<forall>t\<in>set [''products'', ''Brands'']. \<forall>r\<in>set (describe_rows ?db t). 2 \<le> length r"
    by (simp add: describe_rows_def)
  have prod: "map (take 2) (describe_rows ?db ''products'')
                = [[''product_id'', ''INTEGER''], [''product_name'', ''VARCHAR'']]"
    by (simp add: describe_rows_def)
  from introspection_roundtrip [OF conn sh listed desc shape prod] show ?thesis .
qed

section \<open>Loading the CSV files\<close>

lemma lower_char_dot: "lower_char a = CHR ''.'' \<Longrightarrow> a = CHR ''.''"
  by (simp add: lower_char_def split: if_splits)

lemma lower_char_of_dot: "lower_char CHR ''.'' = CHR ''.''"
  by (simp add: lower_char_def)

lemma is_csv_split:
  assumes "is_csv p"
  shows "\<exists>b c d. p = spec_table_name p @ [CHR ''.'', b, c, d]
           \<and> b \<noteq> CHR ''.'' \<and> c \<noteq> CHR ''.'' \<and> d \<noteq> CHR ''.''"
proof -
  let ?k = "length p - 4"
  have l4: "length ''.csv'' = 4" by simp
  from assms have "drop (length p - length ''.csv'') (map lower_char p) = ''.csv''"
    by (simp only: is_csv_def endswith_def lower_def length_map)
  then have dr: "map lower_char (drop ?k p) = ''.csv''"
    by (simp only: l4 drop_map)
  from dr obtain a b c d where e: "drop ?k p = [a, b, c, d]"
    and l: "lower_char a = CHR ''.''" "lower_char b = CHR ''c''"
           "lower_char c = CHR ''s''" "lower_char d = CHR ''v''"
    by (auto simp: map_eq_Cons_conv)
  have "a = CHR ''.''" using l(1) by (rule lower_char_dot)
  moreover have "b \<noteq> CHR ''.''" "c \<noteq> CHR ''.''" "d \<noteq> CHR ''.''"
    using l lower_char_of_dot by auto
  moreover have "p = take ?k p @ drop ?k p" by simp
  ultimately show ?thesis using e by (metis spec_table_name_def)
qed

lemma rfind_absent: "c \<notin> set p \<Longrightarrow> rfind p c = - 1"
  by (simp add: rfind_def)

lemma rfind_ext:
  assumes "b \<noteq> CHR ''.''" "c \<noteq> CHR ''.''" "d \<noteq> CHR ''.''"
  shows "rfind (stem @ [CHR ''.'', b, c, d]) CHR ''.'' = int (length stem)"
  using assms by (simp add: rfind_def)

lemma splitext_csv:
  assumes csv: "is_csv p" and nosep: "CHR ''/'' \<notin> set p"
  shows "fst (splitext p)
           = (if list_ex (\<lambda>c. c \<noteq> CHR ''.'') (spec_table_name p) then spec_table_name p else p)"
proof -
  from is_csv_split [OF csv] obtain b c d where
    p: "p = spec_table_name p @ [CHR ''.'', b, c, d]"
    and nd: "b \<noteq> CHR ''.''" "c \<noteq> CHR ''.''" "d \<noteq> CHR ''.''"
    by blast
  define stem where "stem = spec_table_name p"
  have p': "p = stem @ [CHR ''.'', b, c, d]" using p by (simp add: stem_def)
  have sep: "rfind p CHR ''/'' = - 1" using nosep by (rule rfind_absent)
  have dot: "rfind p CHR ''.'' = int (length stem)"
    by (subst p') (rule rfind_ext [OF nd])
  have tk: "take (length stem) p = stem" by (subst p') simp
  have "fst (splitext p) = (if list_ex (\<lambda>c. c \<noteq> CHR ''.'') stem then stem else p)"
    unfolding splitext_def sep dot Let_def by (simp add: tk)
  then show ?thesis by (simp add: stem_def)
qed

lemma create_loop_submitted:
  "create_loop E self con files k w = (Inr n, w') \<Longrightarrow>
     submitted w' = submitted w @ load_statements self files
     \<and> n = k + length (filter is_csv files)"
proof (induction files arbitrary: k w)
  case Nil
  then show ?case by (simp add: load_statements_def)
next
  case (Cons fname rest)
  show ?case
  proof (cases "is_csv fname")
    case False
    with Cons.prems have "create_loop E self con rest k w = (Inr n, w')"
      by (simp add: Let_def)
    from Cons.IH [OF this] False show ?thesis by (simp add: load_statements_def)
  next
    case True
    let ?sql = "create_sql (fst (splitext fname)) (path_join (download_path self) fname)"
    obtain x w1 where ex: "con_execute E con ?sql w = (x, w1)"
      by (cases "con_execute E con ?sql w")
    have sub: "submitted w1 = submitted w @ [?sql]"
      using ex by (auto simp: con_execute_def Let_def split: sum.splits prod.splits)
    from Cons.prems True ex obtain rows where x: "x = Inr rows"
      by (cases x) (simp_all add: Let_def)
    with Cons.prems True ex have "create_loop E self con rest (k + 1) w1 = (Inr n, w')"
      by (simp add: Let_def)
    from Cons.IH [OF this] sub True show ?thesis by (simp add: load_statements_def)
  qed
qed

text \<open>
  C8, as the spec states it, fails twice. The file \<open>.csv\<close> ends in \<open>.csv\<close>, yet
  \<^verbatim>\<open>os.path.splitext\<close> strips nothing from a name that is all extension: the
  statement names the table \<open>.csv\<close>, the engine rejects it and no table is created.
  And on a database that already holds a table \<open>products\<close>, loading
  \<open>products.csv\<close> creates nothing: the table keeps its old columns, not the ones
  detected in the file.
\<close>

theorem create_db_table_counterexample:
  "is_csv ''.csv''
   \<and> fst (splitext ''.csv'') \<noteq> spec_table_name ''.csv''
   \<and> fst (create_db dotfile_env shop (world0 [])) = Inl (DuckDBError ''ParserException'')
   \<and> store (snd (create_db dotfile_env shop (world0 []))) = [(''bike_store.db'', [])]
   \<and> is_csv ''products.csv''
   \<and> map_of shop_csvs ''/data/products.csv''
       = Some [(''product_id'', ''INTEGER''), (''product_name'', ''VARCHAR'')]
   \<and> tables_at ''bike_store.db'' (store (snd (create_db shop_env shop (world0 stale_store))))
         ''products''
       = Some [(''old'', ''VARCHAR'')]"
  by code_simp

text \<open>
  C8, amended: a run of \<^verbatim>\<open>_create_db\<close> that returns has handed to the engine, in
  listing order, exactly one \<^verbatim>\<open>CREATE TABLE IF NOT EXISTS\<close> statement reading
  \<^verbatim>\<open>read_csv_auto\<close> of the file for each file whose name ends in \<open>.csv\<close>
  (case-insensitively), and none for any other file; the count it prints is the
  number of those files. The table name in the statement is
  \<^verbatim>\<open>os.path.splitext\<close> of the file name, which is the name without its last four
  characters, letter case preserved, whenever a character other than a dot precedes
  the extension. Whether a table results, and with which column types, is the
  engine's part: \<^verbatim>\<open>IF NOT EXISTS\<close> creates none over a table that is there.
\<close>

theorem create_db_statements:
  assumes ls: "os_listdir E (download_path self) = Inr files"
      and run: "create_db E self w = (Inr n, w')"
  shows "submitted w' = submitted w @ load_statements self files
         \<and> n = length (filter is_csv files)
         \<and> (\<forall>fname\<in>set files.
               is_csv fname \<longrightarrow> CHR ''/'' \<notin> set fname \<longrightarrow>
               list_ex (\<lambda>c. c \<noteq> CHR ''.'') (spec_table_name fname) \<longrightarrow>
                 fst (splitext fname) = spec_table_name fname)"
proof -
  obtain c w1 where cn: "duckdb_connect E (db_path self) False w = (c, w1)"
    by (cases "duckdb_connect E (db_path self) False w")
  from run cn obtain con where c: "c = Inr con"
    by (cases c) (simp_all add: create_db_def)
  have s1: "submitted w1 = submitted w"
    using cn by (auto simp: duckdb_connect_def split: sum.splits)
  obtain r w2 where lp: "create_loop E self con files 0 w1 = (r, w2)"
    by (cases "create_loop E self con files 0 w1")
  from run cn c ls lp have r: "r = Inr n" and w': "w' = con_close con w2"
    by (cases r; simp add: create_db_def)+
  from create_loop_submitted [of E self con files 0 w1 n w2] lp r
  have "submitted w2 = submitted w1 @ load_statements self files"
    and "n = length (filter is_csv files)" by simp_all
  then show ?thesis using s1 w' splitext_csv by (simp add: con_close_def)
qed

theorem create_db_statements_witness:
  "submitted (snd (create_db shop_env shop (world0 [])))
     = [create_sql ''products'' ''/data/products.csv'', create_sql ''Brands'' ''/data/Brands.CSV'']
   \<and> fst (splitext ''Brands.CSV'') = ''Brands''"
proof -
  let ?files = "[''products.csv'', ''README.md'', ''Brands.CSV'']"
  have ls: "os_listdir shop_env (download_path shop) = Inr ?files"
    by code_simp
  have r: "fst (create_db shop_env shop (world0 [])) = Inr 2"
    by code_simp
  then have run: "create_db shop_env shop (world0 [])
                    = (Inr 2, snd (create_db shop_env shop (world0 [])))"
    by (simp add: prod_eq_iff)
  have st: "submitted (world0 ([] :: mem_store)) @ load_statements shop ?files
              = [create_sql ''products'' ''/data/products.csv'',
                 create_sql ''Brands'' ''/data/Brands.CSV'']"
    by code_simp
  have nm: "is_csv ''Brands.CSV'' \<and> CHR ''/'' \<notin> set ''Brands.CSV''
            \<and> list_ex (\<lambda>c. c \<noteq> CHR ''.'') (spec_table_name ''Brands.CSV'')
            \<and> spec_table_name ''Brands.CSV'' = ''Brands''"
    by code_simp
  from create_db_statements [OF ls run] st nm show ?thesis by simp
qed

section \<open>Loading twice\<close>

lemma keeps_refl: "keeps T s s"
  by (simp add: keeps_def)

lemma keeps_trans: "keeps T a b \<Longrightarrow> keeps T b c \<Longrightarrow> keeps T a c"
  by (simp add: keeps_def)

lemma con_execute_keeps:
  assumes "\<forall>s rows s'. eng_execute E con sql s = Inr (rows, s') \<longrightarrow> keeps T s s'"
  shows "keeps T (store w) (store (snd (con_execute E con sql w)))"
proof (cases "eng_execute E con sql (store w)")
  case (Inl msg)
  then show ?thesis by (simp add: con_execute_def keeps_refl)
next
  case (Inr r)
  obtain rows s' where r: "r = (rows, s')" by (cases r)
  with Inr assms have "keeps T (store w) s'" by blast
  with Inr r show ?thesis by (simp add: con_execute_def)
qed

lemma create_loop_keeps:
  assumes "\<forall>sql\<in>set (load_statements self files).
             \<forall>s rows s'. eng_execute E con sql s = Inr (rows, s') \<longrightarrow> keeps T s s'"
  shows "keeps T (store w) (store (snd (create_loop E self con files k w)))"
  using assms
proof (induction files arbitrary: k w)
  case Nil
  show ?case by (simp add: keeps_refl)
next
  case (Cons fname rest)
  show ?case
  proof (cases "is_csv fname")
    case False
    with Cons.prems have "\<forall>sql\<in>set (load_statements self rest).
             \<forall>s rows s'. eng_execute E con sql s = Inr (rows, s') \<longrightarrow> keeps T s s'"
      by (simp add: load_statements_def)
    from Cons.IH [OF this] False show ?thesis by (simp add: Let_def)
  next
    case True
    let ?sql = "create_sql (fst (splitext fname)) (path_join (download_path self) fname)"
    from Cons.prems True have
      h1: "\<forall>s rows s'. eng_execute E con ?sql s = Inr (rows, s') \<longrightarrow> keeps T s s'"
      and h2: "\<forall>sql\<in>set (load_statements self rest).
             \<forall>s rows s'. eng_execute E con sql s = Inr (rows, s') \<longrightarrow> keeps T s s'"
      by (simp_all add: load_statements_def)
    obtain x w1 where ex: "con_execute E con ?sql w = (x, w1)"
      by (cases "con_execute E con ?sql w")
    have k1: "keeps T (store w) (store w1)"
      using con_execute_keeps [OF h1, of w] ex by simp
    show ?thesis
    proof (cases x)
      case (Inl e)
      with True ex k1 show ?thesis by (simp add: Let_def)
    next
      case (Inr rows)
      have "keeps T (store w1) (store (snd (create_loop E self con rest (k + 1) w1)))"
        by (rule Cons.IH [OF h2])
      with k1 have "keeps T (store w) (store (snd (create_loop E self con rest (k + 1) w1)))"
        by (rule keeps_trans)
      with True ex Inr show ?thesis by (simp add: Let_def)
    qed
  qed
qed

lemma create_db_keeps:
  assumes ls: "os_listdir E (download_path self) = Inr files"
      and kc: "\<forall>s s'. eng_connect E (db_path self) False s = Inr s' \<longrightarrow> keeps T s s'"
      and ke: "\<forall>sql\<in>set (load_statements self files).
                 \<forall>s rows s'. eng_execute E (db_path self) sql s = Inr (rows, s') \<longrightarrow> keeps T s s'"
  shows "keeps T (store w) (store (snd (create_db E self w)))"
proof (cases "eng_connect E (db_path self) False (store w)")
  case (Inl msg)
  then show ?thesis by (simp add: create_db_def duckdb_connect_def keeps_refl)
next
  case (Inr s)
  define w1 where
    "w1 = w\<lparr>store := s,
             open_conns := (open_conns w)(db_path self := Suc (open_conns w (db_path self)))\<rparr>"
  have c: "duckdb_connect E (db_path self) False w = (Inr (db_path self), w1)"
    using Inr by (simp add: duckdb_connect_def w1_def)
  have k1: "keeps T (store w) (store w1)"
    using kc Inr by (simp add: w1_def)
  obtain r w2 where lp: "create_loop E self (db_path self) files 0 w1 = (r, w2)"
    by (cases "create_loop E self (db_path self) files 0 w1")
  have k2: "keeps T (store w1) (store w2)"
    using create_loop_keeps [OF ke, of w1 0] lp by simp
  have "store (snd (create_db E self w)) = store w2"
    using c ls lp by (cases r) (simp_all add: create_db_def con_close_def)
  with keeps_trans [OF k1 k2] show ?thesis by simp
qed

lemma mem_connect_keeps:
  "mem_connect path ro s = Inr s' \<Longrightarrow> keeps (tables_at path) s s'"
  by (auto simp: mem_connect_def keeps_def tables_at_def split: if_splits)

lemma mem_execute_keeps:
  assumes "mem_execute csvs path sql s = Inr (rows, s')"
  shows "keeps (tables_at path) s s'"
proof (cases "map_of s path")
  case None
  with assms show ?thesis by (simp add: mem_execute_def)
next
  case (Some db)
  from assms Some have
    "s' = s \<or> (\<exists>t cols. map_of db t = None \<and> s' = dict_set s path (db @ [(t, cols)]))"
    by (auto simp: mem_execute_def Let_def split: if_splits option.splits)
  then show ?thesis
  proof
    assume "s' = s"
    then show ?thesis by (simp add: keeps_refl)
  next
    assume "\<exists>t cols. map_of db t = None \<and> s' = dict_set s path (db @ [(t, cols)])"
    then obtain t cols where "map_of db t = None" and s': "s' = dict_set s path (db @ [(t, cols)])"
      by blast
    show ?thesis
      unfolding keeps_def tables_at_def s'
      by (auto simp: map_of_dict_set Some map_add_def split: option.splits)
  qed
qed

text \<open>
  C10: the load is idempotent on the tables there are. Every statement of
  \<^verbatim>\<open>_create_db\<close> is a \<^verbatim>\<open>CREATE TABLE IF NOT EXISTS\<close>; on an engine where opening
  the database and each of these statements keep the existing tables, a second run
  of the load on the same database path leaves every table that is there after the
  first run, so every table the first run created, unchanged. The witness changes
  the CSV file between the two runs.
\<close>

theorem create_db_idempotent:
  assumes ls: "os_listdir E (download_path self) = Inr files"
      and kc: "\<forall>s s'. eng_connect E (db_path self) False s = Inr s' \<longrightarrow> keeps tables s s'"
      and ke: "\<forall>sql\<in>set (load_statements self files).
                 \<forall>s rows s'. eng_execute E (db_path self) sql s = Inr (rows, s')
                   \<longrightarrow> keeps tables s s'"
      and first: "w1 = snd (create_db E0 self w0)"
      and second: "w2 = snd (create_db E self w1)"
  shows "\<forall>t. tables (store w1) t \<noteq> None \<longrightarrow> tables (store w2) t = tables (store w1) t"
  using create_db_keeps [OF ls kc ke, of w1] second by (simp add: keeps_def)

theorem create_db_idempotent_witness:
  "tables_at ''bike_store.db''
     (store (snd (create_db changed_env shop (snd (create_db shop_env shop (world0 []))))))
     ''products''
   = Some [(''product_id'', ''INTEGER''), (''product_name'', ''VARCHAR'')]"
proof -
  let ?T = "tables_at ''bike_store.db''"
  let ?w1 = "snd (create_db shop_env shop (world0 []))"
  let ?w2 = "snd (create_db changed_env shop ?w1)"
  have ls: "os_listdir changed_env (download_path shop) = Inr [''products.csv'']"
    by code_simp
  have ec: "eng_connect changed_env = mem_connect"
    and ee: "eng_execute changed_env
               = mem_execute [(''/data/products.csv'', [(''product_id'', ''VARCHAR'')])]"
    by (simp_all add: changed_env_def mem_env_def)
  have dp: "db_path shop = ''bike_store.db''"
    by (simp add: shop_def)
  have kc: "\<forall>s s'. eng_connect changed_env (db_path shop) False s = Inr s' \<longrightarrow> keeps ?T s s'"
    unfolding ec dp by (blast intro: mem_connect_keeps)
  have ke: "\<forall>sql\<in>set (load_statements shop [''products.csv'']).
              \<forall>s rows s'. eng_execute changed_env (db_path shop) sql s = Inr (rows, s')
                \<longrightarrow> keeps ?T s s'"
    unfolding ee dp by (blast intro: mem_execute_keeps)
  have t1: "?T (store ?w1) ''products''
              = Some [(''product_id'', ''INTEGER''), (''product_name'', ''VARCHAR'')]"
    by code_simp
  from create_db_idempotent [OF ls kc ke refl refl, of shop_env "world0 []"] t1
  show ?thesis by simp
qed

end
